theory Spec2Isabelle
  imports Main
begin

section \<open>The plugin-facing Config wrapper of the build engine\<close>

text \<open>
  This theory embeds \<^verbatim>\<open>packages/core/core/src/public/Config.js\<close>: the class
  \<^verbatim>\<open>PublicConfig\<close> that transform plugins use to resolve configuration files and to
  record what a configuration depends on.

  A synchronous method is a function from the state before the call to the state after
  it. An \<^verbatim>\<open>async\<close> method is a function from the state at the call to a promise and the
  state its synchronous part leaves; the promise is resumed at every \<^verbatim>\<open>await\<close>, so that
  other calls can run in between.
\<close>

subsection \<open>JavaScript values\<close>

text \<open>
  Parsed configuration is untyped data. Numbers are represented by integers: the only
  thing the class asks of a number is whether it is zero. An object is the list of its own
  properties, the first binding of a key being the one that counts. \<open>JBuiltin\<close> is a
  function or an object that the engine provides, such as \<^verbatim>\<open>Object.prototype.toString\<close>,
  given by its name.
\<close>

datatype jsval =
    JNull
  | JUndefined
  | JBool bool
  | JNum int
  | JStr string
  | JArr "jsval list"
  | JObj "(string \<times> jsval) list"
  | JBuiltin string

text \<open>What \<^verbatim>\<open>if (v)\<close> and \<^verbatim>\<open>a && b\<close> test.\<close>

fun truthy :: "jsval \<Rightarrow> bool" where
  "truthy JNull = False"
| "truthy JUndefined = False"
| "truthy (JBool b) = b"
| "truthy (JNum n) = (n \<noteq> 0)"
| "truthy (JStr s) = (s \<noteq> [])"
| "truthy (JArr xs) = True"
| "truthy (JObj kvs) = True"
| "truthy (JBuiltin name) = True"

text \<open>
  A property key that is an array index: the decimal digits of a number with no leading
  zero.
\<close>

definition digit_value :: "char \<Rightarrow> nat option" where
  "digit_value c =
     map_of [(CHR ''0'', 0), (CHR ''1'', 1), (CHR ''2'', 2), (CHR ''3'', 3), (CHR ''4'', 4),
             (CHR ''5'', 5), (CHR ''6'', 6), (CHR ''7'', 7), (CHR ''8'', 8), (CHR ''9'', 9)] c"

fun digits_value :: "string \<Rightarrow> nat \<Rightarrow> nat option" where
  "digits_value [] acc = Some acc"
| "digits_value (c # cs) acc =
     (case digit_value c of None \<Rightarrow> None | Some d \<Rightarrow> digits_value cs (10 * acc + d))"

definition array_index :: "string \<Rightarrow> nat option" where
  "array_index k =
     (if k = [] \<or> (hd k = CHR ''0'' \<and> tl k \<noteq> []) then None else digits_value k 0)"

text \<open>
  The own properties of a value: the bindings of an object; the elements and the
  \<^verbatim>\<open>length\<close> of an array; the characters and the \<^verbatim>\<open>length\<close> of a string.
\<close>

fun own_property :: "jsval \<Rightarrow> string \<Rightarrow> jsval option" where
  "own_property (JObj kvs) k = map_of kvs k"
| "own_property (JArr xs) k =
     (if k = ''length'' then Some (JNum (int (length xs)))
      else (case array_index k of
              None \<Rightarrow> None
            | Some i \<Rightarrow> if i < length xs then Some (xs ! i) else None))"
| "own_property (JStr s) k =
     (if k = ''length'' then Some (JNum (int (length s)))
      else (case array_index k of
              None \<Rightarrow> None
            | Some i \<Rightarrow> if i < length s then Some (JStr [s ! i]) else None))"
| "own_property v k = None"

text \<open>\<^verbatim>\<open>String.prototype.endsWith\<close> with one argument.\<close>

definition endsWith :: "string \<Rightarrow> string \<Rightarrow> bool" where
  "endsWith s search =
     (length search \<le> length s \<and> drop (length s - length search) s = search)"

subsection \<open>The internal Config and the options of a lookup\<close>

type_synonym FilePath = string
type_synonym Glob = string
type_synonym PackageName = string

text \<open>
  The internal \<^verbatim>\<open>Config\<close> that the wrapper holds in \<^verbatim>\<open>#config\<close>, with the fields the
  class reads and writes. \<^verbatim>\<open>includedFiles\<close> is a JavaScript \<^verbatim>\<open>Set\<close> of paths,
  \<^verbatim>\<open>devDeps\<close> a \<^verbatim>\<open>Map\<close> from a package name to a version that may be \<^verbatim>\<open>undefined\<close>.
\<close>

record 'env Config =
  env :: 'env
  searchPath :: FilePath
  result :: jsval
  resultHash :: "string option"
  isSource :: bool
  resolvedPath :: "FilePath option"
  includedFiles :: "FilePath set"
  devDeps :: "PackageName \<rightharpoonup> string option"
  watchGlob :: "Glob option"
  shouldRehydrate :: bool
  shouldReload :: bool
  shouldInvalidateOnStartup :: bool
  pkg :: jsval

record 'fs ParcelOptions =
  inputFS :: 'fs

text \<open>The optional third argument of \<^verbatim>\<open>getConfig\<close> and \<^verbatim>\<open>getConfigFrom\<close>.\<close>

record get_options =
  packageKey :: "string option"
  parse :: "bool option"
  exclude :: "bool option"

subsection \<open>What the class takes from outside\<close>

text \<open>
  \<^verbatim>\<open>loadConfig\<close> comes from the utilities package and reads the file system. It answers
  \<^verbatim>\<open>null\<close> when no candidate file is found, a \<^verbatim>\<open>{config, files}\<close> object when one is,
  or it throws. Its answer may depend on the calls made before, since the file system can
  change between two calls; every call is appended to the log \<open>loaded\<close> of the state.
\<close>

datatype error = TypeError | LoadError string

record config_file =
  filePath :: FilePath

record config_output =
  config :: jsval
  files :: "config_file list"

datatype load_call = LoadCall FilePath "FilePath list" "bool option"

type_synonym 'fs loader =
  "load_call list \<Rightarrow> 'fs \<Rightarrow> FilePath \<Rightarrow> FilePath list \<Rightarrow> bool option
     \<Rightarrow> error + config_output option"

text \<open>
  The host of the class: \<^verbatim>\<open>loadConfig\<close>, and what the JavaScript engine answers to a
  property read when the value has no own property of that name. \<open>inherited v k\<close> is
  what the prototype chain of \<open>v\<close> holds under \<open>k\<close>, \<^verbatim>\<open>undefined\<close> when it holds
  nothing. Both are parameters of the model: every theorem holds for every host.
\<close>

record 'fs host =
  loadConfig :: "'fs loader"
  inherited :: "jsval \<Rightarrow> string \<Rightarrow> jsval"

text \<open>
  The property read \<^verbatim>\<open>pkg[packageKey]\<close>: the own property when there is one, what the
  value inherits otherwise. The class reads a property of a truthy value only, so the
  read never throws.
\<close>

definition js_get :: "'fs host \<Rightarrow> jsval \<Rightarrow> string \<Rightarrow> jsval" where
  "js_get h v k = (case own_property v k of Some x \<Rightarrow> x | None \<Rightarrow> inherited h v k)"

text \<open>
  The state a method runs in: the private fields \<^verbatim>\<open>#config\<close> and \<^verbatim>\<open>#options\<close> of the
  wrapper and the calls of \<^verbatim>\<open>loadConfig\<close> made so far, oldest first.
\<close>

record ('env, 'fs) pc_state =
  priv_config :: "'env Config"
  priv_options :: "'fs ParcelOptions"
  loaded :: "load_call list"

subsection \<open>Promises\<close>

text \<open>
  What is left of an \<^verbatim>\<open>async\<close> call: it is settled with a value, or it is suspended at
  an \<^verbatim>\<open>await\<close>. Resuming a suspended call, in the state of that moment, runs it to its
  next \<^verbatim>\<open>await\<close> or to its end. A call that throws is settled with the error.
\<close>

datatype ('s, 'a) promise =
    Settled 'a
  | Pending "'s \<Rightarrow> ('s, 'a) promise \<times> 's"

text \<open>
  \<^verbatim>\<open>x = await p; k\<close>: the caller is suspended until \<open>p\<close> is settled, and once more
  before it goes on with the value, as \<^verbatim>\<open>await\<close> never continues in the same turn.
\<close>

primrec await ::
  "('s, 'a) promise \<Rightarrow> ('a \<Rightarrow> 's \<Rightarrow> ('s, 'b) promise \<times> 's) \<Rightarrow> ('s, 'b) promise" where
  "await (Settled v) k = Pending (k v)"
| "await (Pending r) k = Pending (\<lambda>s. map_prod (\<lambda>p. await p k) id (r s))"

text \<open>Awaiting a call: its synchronous part has run, the rest is awaited.\<close>

definition await_call ::
  "('s, 'a) promise \<times> 's \<Rightarrow> ('a \<Rightarrow> 's \<Rightarrow> ('s, 'b) promise \<times> 's) \<Rightarrow> ('s, 'b) promise \<times> 's" where
  "await_call c k = (await (fst c) k, snd c)"

text \<open>
  Resuming a promise until it is settled, with no other call running in between.
  \<open>completed\<close> does so for a call that was just made.
\<close>

primrec settle :: "('s, 'a) promise \<Rightarrow> 's \<Rightarrow> 'a \<times> 's" where
  "settle (Settled v) s = (v, s)"
| "settle (Pending r) s = (case map_prod settle id (r s) of (f, s') \<Rightarrow> f s')"

definition completed :: "('s, 'a) promise \<times> 's \<Rightarrow> 'a \<times> 's" where
  "completed c = settle (fst c) (snd c)"

subsection \<open>Getters\<close>

datatype 'env Environment = Environment 'env

definition env' :: "('env, 'fs) pc_state \<Rightarrow> 'env Environment" where
  "env' s = Environment (env (priv_config s))"

definition searchPath' :: "('env, 'fs) pc_state \<Rightarrow> FilePath" where
  "searchPath' s = searchPath (priv_config s)"

definition result' :: "('env, 'fs) pc_state \<Rightarrow> jsval" where
  "result' s = result (priv_config s)"

definition isSource' :: "('env, 'fs) pc_state \<Rightarrow> bool" where
  "isSource' s = isSource (priv_config s)"

definition resolvedPath' :: "('env, 'fs) pc_state \<Rightarrow> FilePath option" where
  "resolvedPath' s = resolvedPath (priv_config s)"

subsection \<open>Mutators\<close>

definition setResolvedPath :: "FilePath \<Rightarrow> ('env, 'fs) pc_state \<Rightarrow> ('env, 'fs) pc_state" where
  "setResolvedPath p s = s\<lparr>priv_config := (priv_config s)\<lparr>resolvedPath := Some p\<rparr>\<rparr>"

definition setResult :: "jsval \<Rightarrow> ('env, 'fs) pc_state \<Rightarrow> ('env, 'fs) pc_state" where
  "setResult r s = s\<lparr>priv_config := (priv_config s)\<lparr>result := r\<rparr>\<rparr>"

definition setResultHash :: "string \<Rightarrow> ('env, 'fs) pc_state \<Rightarrow> ('env, 'fs) pc_state" where
  "setResultHash h s = s\<lparr>priv_config := (priv_config s)\<lparr>resultHash := Some h\<rparr>\<rparr>"

definition addIncludedFile :: "FilePath \<Rightarrow> ('env, 'fs) pc_state \<Rightarrow> ('env, 'fs) pc_state" where
  "addIncludedFile p s =
     s\<lparr>priv_config := (priv_config s)\<lparr>includedFiles := insert p (includedFiles (priv_config s))\<rparr>\<rparr>"

definition addDevDependency ::
  "PackageName \<Rightarrow> string option \<Rightarrow> ('env, 'fs) pc_state \<Rightarrow> ('env, 'fs) pc_state" where
  "addDevDependency name version s =
     s\<lparr>priv_config := (priv_config s)\<lparr>devDeps := (devDeps (priv_config s))(name \<mapsto> version)\<rparr>\<rparr>"

definition setWatchGlob :: "Glob \<Rightarrow> ('env, 'fs) pc_state \<Rightarrow> ('env, 'fs) pc_state" where
  "setWatchGlob g s = s\<lparr>priv_config := (priv_config s)\<lparr>watchGlob := Some g\<rparr>\<rparr>"

definition shouldRehydrate' :: "('env, 'fs) pc_state \<Rightarrow> ('env, 'fs) pc_state" where
  "shouldRehydrate' s = s\<lparr>priv_config := (priv_config s)\<lparr>shouldRehydrate := True\<rparr>\<rparr>"

definition shouldReload' :: "('env, 'fs) pc_state \<Rightarrow> ('env, 'fs) pc_state" where
  "shouldReload' s = s\<lparr>priv_config := (priv_config s)\<lparr>shouldReload := True\<rparr>\<rparr>"

definition shouldInvalidateOnStartup' :: "('env, 'fs) pc_state \<Rightarrow> ('env, 'fs) pc_state" where
  "shouldInvalidateOnStartup' s =
     s\<lparr>priv_config := (priv_config s)\<lparr>shouldInvalidateOnStartup := True\<rparr>\<rparr>"

subsection \<open>Resolving configuration\<close>

text \<open>\<^verbatim>\<open>options && options.packageKey\<close> and \<^verbatim>\<open>options && options.parse\<close>.\<close>

definition packageKey_of :: "get_options option \<Rightarrow> string option" where
  "packageKey_of options = (case options of None \<Rightarrow> None | Some opts \<Rightarrow> packageKey opts)"

definition parse_of :: "get_options option \<Rightarrow> bool option" where
  "parse_of options = (case options of None \<Rightarrow> None | Some opts \<Rightarrow> parse opts)"

text \<open>\<^verbatim>\<open>!options || !options.exclude\<close>.\<close>

definition not_excluded :: "get_options option \<Rightarrow> bool" where
  "not_excluded options =
     (case options of None \<Rightarrow> True | Some opts \<Rightarrow> exclude opts \<noteq> Some True)"

text \<open>\<^verbatim>\<open>conf.files[0].filePath\<close>, a TypeError when \<^verbatim>\<open>files\<close> is empty.\<close>

definition files0_filePath :: "config_output \<Rightarrow> error + FilePath" where
  "files0_filePath conf = (case files conf of [] \<Rightarrow> Inl TypeError | f # _ \<Rightarrow> Inr (filePath f))"

type_synonym ('env, 'fs) call =
  "(('env, 'fs) pc_state, error + jsval) promise \<times> ('env, 'fs) pc_state"

text \<open>
  The call \<^verbatim>\<open>loadConfig(this.#options.inputFS, searchPath, filePaths, ...)\<close>: the call is
  logged, and its promise is settled with the answer when it is resumed.
\<close>

definition loadConfig_call ::
  "'fs host \<Rightarrow> ('env, 'fs) pc_state \<Rightarrow> FilePath \<Rightarrow> FilePath list \<Rightarrow> bool option
     \<Rightarrow> (('env, 'fs) pc_state, error + config_output option) promise \<times> ('env, 'fs) pc_state" where
  "loadConfig_call h s sp filePaths prs =
     (Pending (\<lambda>s'. (Settled (loadConfig h (loaded s) (inputFS (priv_options s)) sp filePaths prs),
                       s')),
      s\<lparr>loaded := loaded s @ [LoadCall sp filePaths prs]\<rparr>)"

text \<open>
  The second half of \<^verbatim>\<open>getConfigFrom\<close>, from \<^verbatim>\<open>let parse = ...\<close> to the end: the call of
  \<^verbatim>\<open>loadConfig\<close>, awaited, and the recording of the file it found. \<open>s1\<close> is the state
  in which the method goes on after the \<^verbatim>\<open>await\<close>.
\<close>

definition getConfigFrom_load ::
  "'fs host \<Rightarrow> ('env, 'fs) pc_state \<Rightarrow> FilePath \<Rightarrow> FilePath list \<Rightarrow> get_options option
     \<Rightarrow> ('env, 'fs) call" where
  "getConfigFrom_load h s sp filePaths options =
     (let parse = parse_of options in
      await_call (loadConfig_call h s sp filePaths parse)
        (\<lambda>conf s1.
           case conf of
             Inl e \<Rightarrow> (Settled (Inl e), s1)
           | Inr None \<Rightarrow> (Settled (Inr JNull), s1)
           | Inr (Some c) \<Rightarrow>
               if not_excluded options then
                 if (case resolvedPath (priv_config s1) of
                       None \<Rightarrow> True
                     | Some rp \<Rightarrow> endsWith rp ''package.json'')
                 then (case files0_filePath c of
                         Inl e \<Rightarrow> (Settled (Inl e), s1)
                       | Inr p \<Rightarrow> (Settled (Inr (config c)), setResolvedPath p s1))
                 else (case files0_filePath c of
                         Inl e \<Rightarrow> (Settled (Inl e), s1)
                       | Inr p \<Rightarrow> (Settled (Inr (config c)), addIncludedFile p s1))
               else (Settled (Inr (config c)), s1)))"

text \<open>
  \<^verbatim>\<open>getConfigFrom\<close>, \<^verbatim>\<open>getConfig\<close> and \<^verbatim>\<open>getPackage\<close> call one another:
  \<^verbatim>\<open>getConfigFrom\<close> asks \<^verbatim>\<open>getPackage\<close> when a package key is given, \<^verbatim>\<open>getPackage\<close>
  asks \<^verbatim>\<open>getConfig\<close> without options, \<^verbatim>\<open>getConfig\<close> asks \<^verbatim>\<open>getConfigFrom\<close>.
  \<^verbatim>\<open>getPackage\<close> tests \<^verbatim>\<open>this.#config.pkg\<close> in the state of the call and assigns it in
  the state in which it is resumed.
\<close>

function
  getConfigFrom ::
    "'fs host \<Rightarrow> ('env, 'fs) pc_state \<Rightarrow> FilePath \<Rightarrow> FilePath list \<Rightarrow> get_options option
       \<Rightarrow> ('env, 'fs) call"
and getConfig ::
    "'fs host \<Rightarrow> ('env, 'fs) pc_state \<Rightarrow> FilePath list \<Rightarrow> get_options option
       \<Rightarrow> ('env, 'fs) call"
and getPackage ::
    "'fs host \<Rightarrow> ('env, 'fs) pc_state \<Rightarrow> ('env, 'fs) call"
where
  "getConfigFrom h s sp filePaths options =
     (case packageKey_of options of
        None \<Rightarrow> getConfigFrom_load h s sp filePaths options
      | Some k \<Rightarrow>
          await_call (getPackage h s)
            (\<lambda>r s1.
               case r of
                 Inl e \<Rightarrow> (Settled (Inl e), s1)
               | Inr p \<Rightarrow>
                   if truthy p \<and> truthy (js_get h p k) then (Settled (Inr (js_get h p k)), s1)
                   else getConfigFrom_load h s1 sp filePaths options))"
| "getConfig h s filePaths options = getConfigFrom h s (searchPath' s) filePaths options"
| "getPackage h s =
     (if truthy (pkg (priv_config s)) then (Settled (Inr (pkg (priv_config s))), s)
      else await_call (getConfig h s [''package.json''] None)
             (\<lambda>r s1.
                case r of
                  Inl e \<Rightarrow> (Settled (Inl e), s1)
                | Inr v \<Rightarrow> (Settled (Inr v), s1\<lparr>priv_config := (priv_config s1)\<lparr>pkg := v\<rparr>\<rparr>)))"
  by pat_completeness auto
termination
  by (relation "measure (\<lambda>x. case x of
        Inl (h, s, sp, fps, options) \<Rightarrow> (if packageKey_of options = None then 0 else 3)
      | Inr (Inl (h, s, fps, options)) \<Rightarrow> (if packageKey_of options = None then 1 else 4)
      | Inr (Inr (h, s)) \<Rightarrow> 2)")
     (auto simp: packageKey_of_def)

declare getConfigFrom.simps [simp del] getConfig.simps [simp del] getPackage.simps [simp del]

subsection \<open>Sequences of calls\<close>

text \<open>
  The operations a plugin can perform on a wrapper: the methods and the getters of the
  class. \<open>exec\<close> performs one of them to its end before anything else runs, and keeps
  the state it leaves, also when the call throws; \<open>run\<close> performs a sequence of
  operations that do not overlap, each one made after the one before is settled.
\<close>

datatype op =
    SetResolvedPath FilePath
  | SetResult jsval
  | SetResultHash string
  | AddIncludedFile FilePath
  | AddDevDependency PackageName "string option"
  | SetWatchGlob Glob
  | ShouldRehydrate
  | ShouldReload
  | ShouldInvalidateOnStartup
  | GetConfigFrom FilePath "FilePath list" "get_options option"
  | GetConfig "FilePath list" "get_options option"
  | GetPackage
  | GetEnv
  | GetSearchPath
  | GetResult
  | GetIsSource
  | GetResolvedPath

fun exec :: "'fs host \<Rightarrow> op \<Rightarrow> ('env, 'fs) pc_state \<Rightarrow> ('env, 'fs) pc_state" where
  "exec h (SetResolvedPath p) s = setResolvedPath p s"
| "exec h (SetResult r) s = setResult r s"
| "exec h (SetResultHash x) s = setResultHash x s"
| "exec h (AddIncludedFile p) s = addIncludedFile p s"
| "exec h (AddDevDependency n v) s = addDevDependency n v s"
| "exec h (SetWatchGlob g) s = setWatchGlob g s"
| "exec h ShouldRehydrate s = shouldRehydrate' s"
| "exec h ShouldReload s = shouldReload' s"
| "exec h ShouldInvalidateOnStartup s = shouldInvalidateOnStartup' s"
| "exec h (GetConfigFrom sp fps options) s = snd (completed (getConfigFrom h s sp fps options))"
| "exec h (GetConfig fps options) s = snd (completed (getConfig h s fps options))"
| "exec h GetPackage s = snd (completed (getPackage h s))"
| "exec h GetEnv s = s"
| "exec h GetSearchPath s = s"
| "exec h GetResult s = s"
| "exec h GetIsSource s = s"
| "exec h GetResolvedPath s = s"

fun run :: "'fs host \<Rightarrow> op list \<Rightarrow> ('env, 'fs) pc_state \<Rightarrow> ('env, 'fs) pc_state" where
  "run h [] s = s"
| "run h (x # xs) s = run h xs (exec h x s)"

subsection \<open>The constructor and the table of wrappers\<close>

text \<open>
  The constructor depends on the identity of objects, so it runs on a store. A reference
  stands for an object; \<open>objects\<close> holds the private fields \<^verbatim>\<open>(#config, #options)\<close> of
  every wrapper that was initialised; \<open>internalConfigToConfig\<close> is the module-level table
  from an options object to the table from an internal Config to its wrapper.
\<close>

type_synonym ref = nat

record store =
  objects :: "ref \<rightharpoonup> ref \<times> ref"
  internalConfigToConfig :: "ref \<rightharpoonup> (ref \<rightharpoonup> ref)"
  next_ref :: ref

text \<open>
  Modelled from the spec: the class \<^verbatim>\<open>DefaultWeakMap\<close> of the utilities package, which is
  not among the sources. The specification describes the table as a mapping from (owning
  context, underlying entity) to the public-facing wrapper, one wrapper for each pair; the
  table is built with \<^verbatim>\<open>new DefaultWeakMap(() => new WeakMap())\<close>, so
  \<^verbatim>\<open>internalConfigToConfig.get(options)\<close> binds a key it does not hold to an empty table
  when the key is first asked for, and answers with the table bound to the key.
\<close>

definition dwm_get :: "store \<Rightarrow> ref \<Rightarrow> (ref \<rightharpoonup> ref) \<times> store" where
  "dwm_get st key =
     (case internalConfigToConfig st key of
        Some ret \<Rightarrow> (ret, st)
      | None \<Rightarrow>
          (Map.empty,
           st\<lparr>internalConfigToConfig := (internalConfigToConfig st)(key \<mapsto> Map.empty)\<rparr>))"

text \<open>
  \<^verbatim>\<open>new PublicConfig(config, options)\<close>: \<^verbatim>\<open>new\<close> allocates \<^verbatim>\<open>this\<close>, then the
  constructor returns the wrapper already registered for the pair, when there is one, in
  its place.
\<close>

definition new_PublicConfig :: "store \<Rightarrow> ref \<Rightarrow> ref \<Rightarrow> ref \<times> store" where
  "new_PublicConfig st cfg options =
     (let this = next_ref st;
          st0 = st\<lparr>next_ref := Suc this\<rparr>;
          (m, st1) = dwm_get st0 options
      in case m cfg of
           Some existing \<Rightarrow> (existing, st1)
         | None \<Rightarrow>
             (let st2 = st1\<lparr>objects := (objects st1)(this \<mapsto> (cfg, options))\<rparr>;
                  (m2, st3) = dwm_get st2 options
              in (this,
                  st3\<lparr>internalConfigToConfig :=
                        (internalConfigToConfig st3)(options \<mapsto> m2(cfg \<mapsto> this))\<rparr>)))"

text \<open>Constructing a wrapper for each (config, options) pair of a list, in order.\<close>

fun construct_all :: "store \<Rightarrow> (ref \<times> ref) list \<Rightarrow> store" where
  "construct_all st [] = st"
| "construct_all st ((cfg, options) # ps) = construct_all (snd (new_PublicConfig st cfg options)) ps"

text \<open>
  A store in which no wrapper was constructed yet, \<open>n\<close> references being in use for
  other objects.
\<close>

definition new_store :: "ref \<Rightarrow> store" where
  "new_store n = \<lparr>objects = Map.empty, internalConfigToConfig = Map.empty, next_ref = n\<rparr>"

subsection \<open>Example projects\<close>

text \<open>
  An engine for the examples: the members of the built-in prototypes of a current
  Node.js. A value inherits the members of the prototype of its kind and those of
  \<^verbatim>\<open>Object.prototype\<close>.
\<close>

definition object_prototype :: "string list" where
  "object_prototype =
     [''constructor'', ''__defineGetter__'', ''__defineSetter__'', ''hasOwnProperty'',
      ''__lookupGetter__'', ''__lookupSetter__'', ''isPrototypeOf'', ''propertyIsEnumerable'',
      ''toString'', ''valueOf'', ''__proto__'', ''toLocaleString'']"

definition array_prototype :: "string list" where
  "array_prototype =
     [''constructor'', ''at'', ''concat'', ''copyWithin'', ''fill'', ''find'', ''findIndex'',
      ''findLast'', ''findLastIndex'', ''lastIndexOf'', ''pop'', ''push'', ''reverse'',
      ''shift'', ''unshift'', ''slice'', ''sort'', ''splice'', ''includes'', ''indexOf'',
      ''join'', ''keys'', ''entries'', ''values'', ''forEach'', ''filter'', ''flat'',
      ''flatMap'', ''map'', ''every'', ''some'', ''reduce'', ''reduceRight'',
      ''toLocaleString'', ''toString'', ''toReversed'', ''toSorted'', ''toSpliced'', ''with'']"

definition string_prototype :: "string list" where
  "string_prototype =
     [''constructor'', ''anchor'', ''at'', ''big'', ''blink'', ''bold'', ''charAt'',
      ''charCodeAt'', ''codePointAt'', ''concat'', ''endsWith'', ''fontcolor'', ''fontsize'',
      ''fixed'', ''includes'', ''indexOf'', ''isWellFormed'', ''italics'', ''lastIndexOf'',
      ''link'', ''localeCompare'', ''match'', ''matchAll'', ''normalize'', ''padEnd'',
      ''padStart'', ''repeat'', ''replace'', ''replaceAll'', ''search'', ''slice'', ''small'',
      ''split'', ''strike'', ''sub'', ''substr'', ''substring'', ''sup'', ''startsWith'',
      ''toString'', ''toWellFormed'', ''trim'', ''trimStart'', ''trimLeft'', ''trimEnd'',
      ''trimRight'', ''toLocaleLowerCase'', ''toLocaleUpperCase'', ''toLowerCase'',
      ''toUpperCase'', ''valueOf'']"

definition number_prototype :: "string list" where
  "number_prototype =
     [''constructor'', ''toExponential'', ''toFixed'', ''toPrecision'', ''toString'',
      ''valueOf'', ''toLocaleString'']"

definition boolean_prototype :: "string list" where
  "boolean_prototype = [''constructor'', ''toString'', ''valueOf'']"

definition function_prototype :: "string list" where
  "function_prototype =
     [''length'', ''name'', ''arguments'', ''caller'', ''constructor'', ''apply'', ''bind'',
      ''call'', ''toString'']"

fun prototype_of :: "jsval \<Rightarrow> string \<times> string list" where
  "prototype_of (JArr xs) = (''Array'', array_prototype)"
| "prototype_of (JStr x) = (''String'', string_prototype)"
| "prototype_of (JNum n) = (''Number'', number_prototype)"
| "prototype_of (JBool b) = (''Boolean'', boolean_prototype)"
| "prototype_of (JBuiltin name) = (''Function'', function_prototype)"
| "prototype_of v = (''Object'', object_prototype)"

definition node_inherited :: "jsval \<Rightarrow> string \<Rightarrow> jsval" where
  "node_inherited v k =
     (if k \<in> set (snd (prototype_of v)) then JBuiltin (fst (prototype_of v) @ ''.prototype.'' @ k)
      else if k \<in> set object_prototype then JBuiltin (''Object.prototype.'' @ k)
      else JUndefined)"

text \<open>
  A fresh Config for the asset \<^verbatim>\<open>/app/src/index.js\<close>, and hosts for a few small
  projects, used to evaluate the methods on concrete inputs. A project lists, for a
  candidate file name, the path where the upward search finds it and what it parses to;
  its loader answers with the first candidate that the project has.
\<close>

definition config0 :: "unit Config" where
  "config0 =
     \<lparr>env = (), searchPath = ''/app/src/index.js'', result = JUndefined, resultHash = None,
      isSource = True, resolvedPath = None, includedFiles = {}, devDeps = Map.empty,
      watchGlob = None, shouldRehydrate = False, shouldReload = False,
      shouldInvalidateOnStartup = False, pkg = JUndefined\<rparr>"

definition state0 :: "(unit, unit) pc_state" where
  "state0 = \<lparr>priv_config = config0, priv_options = \<lparr>inputFS = ()\<rparr>, loaded = []\<rparr>"

fun first_found ::
  "(FilePath \<times> FilePath \<times> jsval) list \<Rightarrow> FilePath list \<Rightarrow> config_output option" where
  "first_found dir [] = None"
| "first_found dir (f # fs) =
     (case map_of dir f of
        Some (path, v) \<Rightarrow> Some \<lparr>config = v, files = [\<lparr>filePath = path\<rparr>]\<rparr>
      | None \<Rightarrow> first_found dir fs)"

definition dir_loader :: "(FilePath \<times> FilePath \<times> jsval) list \<Rightarrow> unit loader" where
  "dir_loader dir history fs sp filePaths prs = Inr (first_found dir filePaths)"

definition dir_host :: "(FilePath \<times> FilePath \<times> jsval) list \<Rightarrow> unit host" where
  "dir_host dir = \<lparr>loadConfig = dir_loader dir, inherited = node_inherited\<rparr>"

definition project_foo :: "(FilePath \<times> FilePath \<times> jsval) list" where
  "project_foo =
     [(''package.json'', ''/app/package.json'', JObj [(''foo'', JObj [(''x'', JNum 1)])]),
      (''some.config.js'', ''/app/some.config.js'', JObj [(''y'', JNum 2)])]"

definition project_foo_false :: "(FilePath \<times> FilePath \<times> jsval) list" where
  "project_foo_false =
     [(''package.json'', ''/app/package.json'', JObj [(''foo'', JBool False)]),
      (''some.config.js'', ''/app/some.config.js'', JObj [(''y'', JNum 2)])]"

definition project_babelrc :: "(FilePath \<times> FilePath \<times> jsval) list" where
  "project_babelrc =
     [(''package.json'', ''/app/package.json'', JObj [(''name'', JStr ''app'')]),
      (''.babelrc'', ''/app/.babelrc'', JObj [(''presets'', JArr [])])]"

definition project_bare :: "(FilePath \<times> FilePath \<times> jsval) list" where
  "project_bare =
     [(''package.json'', ''/app/package.json'', JObj [(''name'', JStr ''app'')])]"

definition key_only :: "string \<Rightarrow> get_options option" where
  "key_only k = Some \<lparr>packageKey = Some k, parse = None, exclude = None\<rparr>"

definition state_custom :: "(unit, unit) pc_state" where
  "state_custom = setResolvedPath ''/x/custom.json'' state0"


definition some_ops :: "op list" where
  "some_ops =
     [GetPackage, SetResult (JNum 1), GetConfig [''.babelrc''] (key_only ''babel''),
      AddIncludedFile ''/app/extra.json'', ShouldReload, GetSearchPath]"

text \<open>
  Two packages: a search that starts under \<^verbatim>\<open>/lib/\<close> finds \<^verbatim>\<open>/lib/package.json\<close>, any
  other search finds \<^verbatim>\<open>/app/package.json\<close>.
\<close>

definition two_package_loader :: "unit loader" where
  "two_package_loader history fs sp filePaths prs =
     (if ''package.json'' \<in> set filePaths then
        (if take 5 sp = ''/lib/''
         then Inr (Some \<lparr>config = JObj [(''name'', JStr ''lib'')],
                         files = [\<lparr>filePath = ''/lib/package.json''\<rparr>]\<rparr>)
         else Inr (Some \<lparr>config = JObj [(''name'', JStr ''app'')],
                         files = [\<lparr>filePath = ''/app/package.json''\<rparr>]\<rparr>))
      else Inr None)"

definition two_package_host :: "unit host" where
  "two_package_host = \<lparr>loadConfig = two_package_loader, inherited = node_inherited\<rparr>"

text \<open>
  A package descriptor that is edited while the build runs: the first load of
  \<^verbatim>\<open>package.json\<close> reads version 1, every later load reads version 2.
\<close>

definition edited_loader :: "unit loader" where
  "edited_loader history fs sp filePaths prs =
     (if ''package.json'' \<in> set filePaths then
        Inr (Some \<lparr>config = JObj [(''version'', JNum (if history = [] then 1 else 2))],
                    files = [\<lparr>filePath = ''/app/package.json''\<rparr>]\<rparr>)
      else Inr None)"

definition edited_host :: "unit host" where
  "edited_host = \<lparr>loadConfig = edited_loader, inherited = node_inherited\<rparr>"

subsection \<open>Predicates used in the proofs\<close>


text \<open>
  Every wrapper in the table is an allocated object whose private fields are the pair it
  is registered for.
\<close>

definition wf_store :: "store \<Rightarrow> bool" where
  "wf_store st \<longleftrightarrow>
     (\<forall>options m cfg w.
        internalConfigToConfig st options = Some m \<and> m cfg = Some w
          \<longrightarrow> w < next_ref st \<and> objects st w = Some (cfg, options))"

section \<open>Properties\<close>

subsection \<open>Auxiliary facts\<close>

lemma settle_Pending: "settle (Pending r) s = completed (r s)"
  by (cases "r s") (simp add: completed_def)

lemma completed_Settled: "completed (Settled v, s) = (v, s)"
  by (simp add: completed_def)

lemma settle_await:
  "settle (await p k) s = (case settle p s of (v, s1) \<Rightarrow> completed (k v s1))"
proof (induction p arbitrary: s)
  case (Settled v)
  show ?case by (simp add: settle_Pending del: settle.simps(2))
next
  case (Pending r)
  obtain p' s' where r: "r s = (p', s')" by (cases "r s")
  then have "(p', s') \<in> range r" by (metis rangeI)
  moreover have "p' \<in> Basic_BNFs.fsts (p', s')" by simp
  ultimately have
    "settle (await p' k) s' = (case settle p' s' of (v, s1) \<Rightarrow> completed (k v s1))"
    by (rule Pending)
  with r show ?case by simp
qed

lemma completed_await_call:
  "completed (await_call c k) = (case completed c of (v, s1) \<Rightarrow> completed (k v s1))"
  by (simp add: completed_def await_call_def settle_await)

lemma completed_loadConfig_call:
  "completed (loadConfig_call h s sp fps prs) =
     (loadConfig h (loaded s) (inputFS (priv_options s)) sp fps prs,
      s\<lparr>loaded := loaded s @ [LoadCall sp fps prs]\<rparr>)"
  by (simp add: loadConfig_call_def completed_def)

text \<open>The methods, run to their end with no other call in between.\<close>

lemma completed_getConfigFrom_load:
  "completed (getConfigFrom_load h s sp fps options) =
     (let s1 = s\<lparr>loaded := loaded s @ [LoadCall sp fps (parse_of options)]\<rparr>
      in case loadConfig h (loaded s) (inputFS (priv_options s)) sp fps (parse_of options) of
           Inl e \<Rightarrow> (Inl e, s1)
         | Inr None \<Rightarrow> (Inr JNull, s1)
         | Inr (Some c) \<Rightarrow>
             if not_excluded options then
               if (case resolvedPath (priv_config s1) of
                     None \<Rightarrow> True
                   | Some rp \<Rightarrow> endsWith rp ''package.json'')
               then (case files0_filePath c of
                       Inl e \<Rightarrow> (Inl e, s1)
                     | Inr p \<Rightarrow> (Inr (config c), setResolvedPath p s1))
               else (case files0_filePath c of
                       Inl e \<Rightarrow> (Inl e, s1)
                     | Inr p \<Rightarrow> (Inr (config c), addIncludedFile p s1))
             else (Inr (config c), s1))"
  by (simp add: getConfigFrom_load_def Let_def completed_await_call completed_loadConfig_call
      completed_Settled split: sum.splits option.splits)

lemma completed_getConfigFrom:
  "completed (getConfigFrom h s sp fps options) =
     (case packageKey_of options of
        None \<Rightarrow> completed (getConfigFrom_load h s sp fps options)
      | Some k \<Rightarrow>
          (case completed (getPackage h s) of
             (Inl e, s1) \<Rightarrow> (Inl e, s1)
           | (Inr p, s1) \<Rightarrow>
               if truthy p \<and> truthy (js_get h p k) then (Inr (js_get h p k), s1)
               else completed (getConfigFrom_load h s1 sp fps options)))"
  by (simp add: getConfigFrom.simps completed_await_call completed_Settled
      split: option.splits sum.splits prod.splits)

lemma completed_getConfig:
  "completed (getConfig h s fps options) =
     completed (getConfigFrom h s (searchPath' s) fps options)"
  by (simp add: getConfig.simps)

lemma completed_getPackage:
  "completed (getPackage h s) =
     (if truthy (pkg (priv_config s)) then (Inr (pkg (priv_config s)), s)
      else (case completed (getConfig h s [''package.json''] None) of
              (Inl e, s1) \<Rightarrow> (Inl e, s1)
            | (Inr v, s1) \<Rightarrow> (Inr v, s1\<lparr>priv_config := (priv_config s1)\<lparr>pkg := v\<rparr>\<rparr>)))"
  by (simp add: getPackage.simps completed_await_call completed_Settled
      split: sum.splits prod.splits)



lemmas evals =
  completed_getPackage completed_getConfig completed_getConfigFrom completed_getConfigFrom_load
  packageKey_of_def parse_of_def not_excluded_def files0_filePath_def endsWith_def
  setResolvedPath_def addIncludedFile_def searchPath'_def Let_def
  state0_def config0_def dir_host_def dir_loader_def key_only_def
  js_get_def node_inherited_def object_prototype_def

lemmas mutator_defs =
  setResolvedPath_def setResult_def setResultHash_def addIncludedFile_def
  addDevDependency_def setWatchGlob_def shouldRehydrate'_def shouldReload'_def
  shouldInvalidateOnStartup'_def


subsection \<open>The package key\<close>

text \<open>
  A package descriptor whose value at the key is falsy does not stop the call. In the
  project below \<^verbatim>\<open>package.json\<close> is \<^verbatim>\<open>{"foo": false}\<close>: the descriptor exists and has
  the key \<^verbatim>\<open>foo\<close>, yet \<^verbatim>\<open>getConfig(["some.config.js"], {packageKey: "foo"})\<close> loads
  the candidate file and returns its content, not \<^verbatim>\<open>false\<close>.
\<close>

theorem getConfig_packageKey_falsy_counterexample:
  "fst (completed (getPackage (dir_host project_foo_false) state0))
     = Inr (JObj [(''foo'', JBool False)])
   \<and> own_property (JObj [(''foo'', JBool False)]) ''foo'' = Some (JBool False)
   \<and> fst (completed (getConfig (dir_host project_foo_false) state0 [''some.config.js'']
                       (key_only ''foo'')))
       = Inr (JObj [(''y'', JNum 2)])
   \<and> loaded (snd (completed (getConfig (dir_host project_foo_false) state0 [''some.config.js'']
                                (key_only ''foo''))))
       = [LoadCall ''/app/src/index.js'' [''package.json''] None,
          LoadCall ''/app/src/index.js'' [''some.config.js''] None]"
  by (simp add: evals project_foo_false_def)

text \<open>
  C1, amended. Take a call with a package key \<open>k\<close> that runs to its end with no other
  call in between. When \<^verbatim>\<open>getPackage()\<close> yields a truthy package descriptor and the
  property read \<^verbatim>\<open>pkg[k]\<close>, of an own or of an inherited property, is truthy,
  \<^verbatim>\<open>getConfigFrom\<close> and \<^verbatim>\<open>getConfig\<close> return what was read and leave exactly the state
  that \<^verbatim>\<open>getPackage()\<close> left: \<^verbatim>\<open>loadConfig\<close> was called for \<^verbatim>\<open>package.json\<close> at
  most, never for the candidate files.
\<close>

theorem getConfig_packageKey_short_circuit:
  assumes "packageKey_of options = Some k"
    and "completed (getPackage h s) = (Inr p, s1)"
    and "truthy p" and "truthy (js_get h p k)"
  shows "completed (getConfigFrom h s sp fps options) = (Inr (js_get h p k), s1)
       \<and> completed (getConfig h s fps options) = (Inr (js_get h p k), s1)
       \<and> (loaded s1 = loaded s
            \<or> loaded s1 = loaded s @ [LoadCall (searchPath (priv_config s)) [''package.json''] None])"
proof -
  have a: "completed (getConfigFrom h s sp fps options) = (Inr (js_get h p k), s1)" for sp
    using assms by (simp add: completed_getConfigFrom)
  have "loaded s1 = loaded s
      \<or> loaded s1 = loaded s @ [LoadCall (searchPath (priv_config s)) [''package.json''] None]"
    using assms(2)
    by (auto simp: completed_getPackage completed_getConfig completed_getConfigFrom
        packageKey_of_def completed_getConfigFrom_load parse_of_def Let_def searchPath'_def
        setResolvedPath_def addIncludedFile_def
        split: if_splits sum.splits option.splits prod.splits)
  with a show ?thesis by (simp add: completed_getConfig)
qed

text \<open>
  The theorem at the project of the specification, \<^verbatim>\<open>{"foo": {"x": 1}}\<close>, and at an
  inherited key: with the package key \<^verbatim>\<open>toString\<close> the call returns
  \<^verbatim>\<open>Object.prototype.toString\<close>.
\<close>

theorem getConfig_packageKey_short_circuit_witness:
  "packageKey_of (key_only ''foo'') = Some ''foo''
   \<and> completed (getPackage (dir_host project_foo) state0) =
       (Inr (JObj [(''foo'', JObj [(''x'', JNum 1)])]),
        snd (completed (getPackage (dir_host project_foo) state0)))
   \<and> completed (getConfig (dir_host project_foo) state0 [''some.config.js''] (key_only ''foo'')) =
       (Inr (JObj [(''x'', JNum 1)]), snd (completed (getPackage (dir_host project_foo) state0)))
   \<and> loaded (snd (completed (getPackage (dir_host project_foo) state0)))
       = [LoadCall ''/app/src/index.js'' [''package.json''] None]
   \<and> completed (getConfig (dir_host project_bare) state0 [''some.config.js'']
                   (key_only ''toString'')) =
       (Inr (JBuiltin ''Object.prototype.toString''),
        snd (completed (getPackage (dir_host project_bare) state0)))"
proof -
  let ?p = "JObj [(''foo'', JObj [(''x'', JNum 1)])]"
  let ?h = "dir_host project_foo"
  have h1: "packageKey_of (key_only ''foo'') = Some ''foo''"
    by (simp add: packageKey_of_def key_only_def)
  have h2: "completed (getPackage ?h state0) = (Inr ?p, snd (completed (getPackage ?h state0)))"
    by (simp add: evals project_foo_def)
  have h3: "truthy ?p" by simp
  have h4: "truthy (js_get ?h ?p ''foo'')" by (simp add: js_get_def)
  have v: "js_get ?h ?p ''foo'' = JObj [(''x'', JNum 1)]" by (simp add: js_get_def)
  have l: "loaded (snd (completed (getPackage ?h state0)))
       = [LoadCall ''/app/src/index.js'' [''package.json''] None]"
    by (simp add: evals project_foo_def)
  let ?q = "JObj [(''name'', JStr ''app'')]"
  let ?g = "dir_host project_bare"
  have g1: "packageKey_of (key_only ''toString'') = Some ''toString''"
    by (simp add: packageKey_of_def key_only_def)
  have g2: "completed (getPackage ?g state0) = (Inr ?q, snd (completed (getPackage ?g state0)))"
    by (simp add: evals project_bare_def)
  have g3: "truthy ?q" by simp
  have w: "js_get ?g ?q ''toString'' = JBuiltin ''Object.prototype.toString''"
    by (simp add: js_get_def dir_host_def node_inherited_def object_prototype_def)
  then have g4: "truthy (js_get ?g ?q ''toString'')" by simp
  from getConfig_packageKey_short_circuit
         [OF h1 h2 h3 h4, of "searchPath' state0" "[''some.config.js'']"]
       getConfig_packageKey_short_circuit
         [OF g1 g2 g3 g4, of "searchPath' state0" "[''some.config.js'']"]
       h1 h2 v w l
  show ?thesis by simp
qed

subsection \<open>\<^verbatim>\<open>getConfig\<close> and \<^verbatim>\<open>getConfigFrom\<close>\<close>

text \<open>
  C4. \<^verbatim>\<open>getConfig(filePaths, options)\<close> returns what
  \<^verbatim>\<open>getConfigFrom(searchPath, filePaths, options)\<close> returns, and leaves the same state,
  where \<^verbatim>\<open>searchPath\<close> is the search path of the wrapper's own Config: the two are the
  same call, with the same promise.
\<close>

theorem getConfig_is_getConfigFrom_searchPath:
  "getConfig h s fps options = getConfigFrom h s (searchPath (priv_config s)) fps options"
  by (simp add: getConfig.simps searchPath'_def)

subsection \<open>One wrapper for each pair\<close>

lemma new_PublicConfig_registers:
  assumes "new_PublicConfig st c options = (w, st1)"
  shows "\<exists>m. internalConfigToConfig st1 options = Some m \<and> m c = Some w"
  using assms
  by (auto simp: new_PublicConfig_def dwm_get_def Let_def split: option.splits prod.splits)

lemma new_PublicConfig_keeps:
  assumes "internalConfigToConfig st options = Some m" and "m c = Some w"
  shows "\<exists>m'. internalConfigToConfig (snd (new_PublicConfig st c' options')) options = Some m'
           \<and> m' c = Some w"
  using assms
  by (auto simp: new_PublicConfig_def dwm_get_def Let_def split: option.splits prod.splits)

lemma construct_all_keeps:
  assumes "internalConfigToConfig st options = Some m" and "m c = Some w"
  shows "\<exists>m'. internalConfigToConfig (construct_all st ps) options = Some m' \<and> m' c = Some w"
  using assms
proof (induction ps arbitrary: st m)
  case Nil
  then show ?case by simp
next
  case (Cons pr ps)
  obtain c' options' where pr: "pr = (c', options')" by (cases pr)
  from new_PublicConfig_keeps [OF Cons.prems, of c' options']
  obtain m' where "internalConfigToConfig (snd (new_PublicConfig st c' options')) options = Some m'"
    and "m' c = Some w" by blast
  from Cons.IH [OF this] show ?case by (simp add: pr)
qed

lemma new_PublicConfig_existing:
  assumes "internalConfigToConfig st options = Some m" and "m c = Some w"
  shows "fst (new_PublicConfig st c options) = w"
  using assms by (simp add: new_PublicConfig_def dwm_get_def Let_def)

lemma wf_new_store: "wf_store (new_store n)"
  by (simp add: wf_store_def new_store_def)

lemma wf_new_PublicConfig:
  assumes "wf_store st"
  shows "wf_store (snd (new_PublicConfig st c options))"
proof (cases "internalConfigToConfig st options")
  case None
  with assms show ?thesis
    unfolding wf_store_def new_PublicConfig_def dwm_get_def Let_def
    by (auto simp: less_Suc_eq split: if_splits)
next
  case (Some m)
  show ?thesis
  proof (cases "m c")
    case None
    with Some assms show ?thesis
      unfolding wf_store_def new_PublicConfig_def dwm_get_def Let_def
      by (auto simp: less_Suc_eq split: if_splits)
  next
    case (Some w)
    with \<open>internalConfigToConfig st options = Some m\<close> assms show ?thesis
      unfolding wf_store_def new_PublicConfig_def dwm_get_def Let_def
      by (auto simp: less_Suc_eq)
  qed
qed

lemma wf_construct_all:
  "wf_store st \<Longrightarrow> wf_store (construct_all st ps)"
proof (induction ps arbitrary: st)
  case Nil
  then show ?case by simp
next
  case (Cons pr ps)
  obtain c options where pr: "pr = (c, options)" by (cases pr)
  from Cons.prems have "wf_store (snd (new_PublicConfig st c options))"
    by (rule wf_new_PublicConfig)
  then show ?case using Cons.IH by (simp add: pr)
qed

lemma new_PublicConfig_result:
  assumes "wf_store st"
  shows "objects (snd (new_PublicConfig st c options)) (fst (new_PublicConfig st c options))
           = Some (c, options)"
proof -
  obtain w st1 where n: "new_PublicConfig st c options = (w, st1)"
    by (cases "new_PublicConfig st c options")
  from new_PublicConfig_registers [OF n]
  obtain m where "internalConfigToConfig st1 options = Some m" and "m c = Some w" by blast
  moreover have "wf_store st1" using wf_new_PublicConfig [OF assms, of c options] n by simp
  ultimately have "objects st1 w = Some (c, options)" unfolding wf_store_def by blast
  with n show ?thesis by simp
qed

lemma objects_kept:
  assumes "wf_store st" and "objects st w = Some pr" and "w < next_ref st"
  shows "objects (snd (new_PublicConfig st c options)) w = Some pr
       \<and> w < next_ref (snd (new_PublicConfig st c options))"
  using assms
  unfolding new_PublicConfig_def dwm_get_def Let_def
  by (auto split: option.splits)

lemma objects_kept_all:
  assumes "wf_store st" and "objects st w = Some pr" and "w < next_ref st"
  shows "objects (construct_all st ps) w = Some pr \<and> w < next_ref (construct_all st ps)"
  using assms
proof (induction ps arbitrary: st)
  case Nil
  then show ?case by simp
next
  case (Cons q ps)
  obtain c options where q: "q = (c, options)" by (cases q)
  from objects_kept [OF Cons.prems, of c options] wf_new_PublicConfig [OF Cons.prems(1), of c options]
  show ?case using Cons.IH by (simp add: q)
qed

lemma new_PublicConfig_allocated:
  assumes "wf_store st"
  shows "fst (new_PublicConfig st c options) < next_ref (snd (new_PublicConfig st c options))"
proof -
  obtain w st1 where n: "new_PublicConfig st c options = (w, st1)"
    by (cases "new_PublicConfig st c options")
  from new_PublicConfig_registers [OF n]
  obtain m where "internalConfigToConfig st1 options = Some m" and "m c = Some w" by blast
  moreover have "wf_store st1" using wf_new_PublicConfig [OF assms, of c options] n by simp
  ultimately have "w < next_ref st1" unfolding wf_store_def by blast
  with n show ?thesis by simp
qed

text \<open>
  C6. Take a store reached from a fresh one by constructions, and construct a wrapper for
  an internal Config and an options object. The wrapper holds the pair in its private
  fields and is registered for it; after any further constructions, constructing for the
  same pair again yields that very wrapper, and constructing for any other pair yields
  another one.
\<close>

theorem PublicConfig_memoized_by_identity:
  fixes n c options :: ref and ps0 ps :: "(ref \<times> ref) list"
  defines "st \<equiv> construct_all (new_store n) ps0"
  defines "w \<equiv> fst (new_PublicConfig st c options)"
  defines "st2 \<equiv> construct_all (snd (new_PublicConfig st c options)) ps"
  shows "fst (new_PublicConfig st2 c options) = w
       \<and> objects (snd (new_PublicConfig st c options)) w = Some (c, options)
       \<and> objects st2 w = Some (c, options)
       \<and> (\<exists>m. internalConfigToConfig st2 options = Some m \<and> m c = Some w)
       \<and> ((c', options') \<noteq> (c, options) \<longrightarrow> fst (new_PublicConfig st2 c' options') \<noteq> w)"
proof -
  obtain st1 where n: "new_PublicConfig st c options = (w, st1)"
    unfolding w_def by (cases "new_PublicConfig st c options") simp
  have st2: "st2 = construct_all st1 ps" unfolding st2_def using n by simp
  from new_PublicConfig_registers [OF n]
  obtain m where m: "internalConfigToConfig st1 options = Some m" "m c = Some w" by blast
  from construct_all_keeps [OF this, of ps]
  obtain m' where m': "internalConfigToConfig st2 options = Some m'" "m' c = Some w"
    unfolding st2 by blast
  then have again: "fst (new_PublicConfig st2 c options) = w"
    by (rule new_PublicConfig_existing)
  have wf: "wf_store st" unfolding st_def by (rule wf_construct_all) (rule wf_new_store)
  have wf1: "wf_store st1" using wf_new_PublicConfig [OF wf, of c options] n by simp
  have o1: "objects st1 w = Some (c, options)"
    using new_PublicConfig_result [OF wf, of c options] n by simp
  have lt: "w < next_ref st1" using new_PublicConfig_allocated [OF wf, of c options] n by simp
  have o2: "objects st2 w = Some (c, options)" and lt2: "w < next_ref st2"
    unfolding st2 using objects_kept_all [OF wf1 o1 lt] by simp_all
  have wf2: "wf_store st2" unfolding st2 using wf1 by (rule wf_construct_all)
  have "objects (snd (new_PublicConfig st2 c' options')) w = Some (c, options)"
    using objects_kept [OF wf2 o2 lt2] by simp
  moreover have "objects (snd (new_PublicConfig st2 c' options'))
      (fst (new_PublicConfig st2 c' options')) = Some (c', options')"
    using wf2 by (rule new_PublicConfig_result)
  ultimately have other: "(c', options') \<noteq> (c, options) \<longrightarrow>
      fst (new_PublicConfig st2 c' options') \<noteq> w"
    by auto
  have o1': "objects (snd (new_PublicConfig st c options)) w = Some (c, options)"
    using o1 n by simp
  from again o1' o2 m' other show ?thesis by blast
qed


theorem PublicConfig_memoized_by_identity_witness:
  "fst (new_PublicConfig (new_store 10) 1 2) = 10
   \<and> objects (snd (new_PublicConfig (new_store 10) 1 2)) 10 = Some (1, 2)
   \<and> fst (new_PublicConfig (construct_all (snd (new_PublicConfig (new_store 10) 1 2)) [(3, 2)]) 1 2)
       = 10
   \<and> (1, 3) \<noteq> ((1::nat), (2::nat))
   \<and> fst (new_PublicConfig (construct_all (snd (new_PublicConfig (new_store 10) 1 2)) [(3, 2)]) 1 3)
       \<noteq> 10"
proof -
  have a: "fst (new_PublicConfig (new_store 10) 1 2) = 10"
    by (simp add: new_PublicConfig_def dwm_get_def new_store_def Let_def)
  have d: "(1, 3) \<noteq> ((1::nat), (2::nat))" by simp
  from PublicConfig_memoized_by_identity [of 10 "[]" 1 2 "[(3, 2)]" 1 3] a d
  show ?thesis by simp
qed

subsection \<open>The mutators\<close>

text \<open>
  C8. Each mutator changes one field of the Config: putting the old value of that field
  back gives the Config of before. The options of the wrapper and the log of loads are
  not touched either.
\<close>

theorem mutators_touch_own_field:
  "(priv_config (addIncludedFile p s))\<lparr>includedFiles := includedFiles (priv_config s)\<rparr>
     = priv_config s
   \<and> (priv_config (addDevDependency n v s))\<lparr>devDeps := devDeps (priv_config s)\<rparr>
     = priv_config s
   \<and> (priv_config (setWatchGlob g s))\<lparr>watchGlob := watchGlob (priv_config s)\<rparr>
     = priv_config s
   \<and> (priv_config (setResolvedPath p s))\<lparr>resolvedPath := resolvedPath (priv_config s)\<rparr>
     = priv_config s
   \<and> (priv_config (setResult r s))\<lparr>result := result (priv_config s)\<rparr>
     = priv_config s
   \<and> (priv_config (setResultHash h s))\<lparr>resultHash := resultHash (priv_config s)\<rparr>
     = priv_config s
   \<and> priv_options (addIncludedFile p s) = priv_options s
   \<and> priv_options (addDevDependency n v s) = priv_options s
   \<and> priv_options (setWatchGlob g s) = priv_options s
   \<and> priv_options (setResolvedPath p s) = priv_options s
   \<and> priv_options (setResult r s) = priv_options s
   \<and> priv_options (setResultHash h s) = priv_options s
   \<and> loaded (addIncludedFile p s) = loaded s
   \<and> loaded (addDevDependency n v s) = loaded s
   \<and> loaded (setWatchGlob g s) = loaded s
   \<and> loaded (setResolvedPath p s) = loaded s
   \<and> loaded (setResult r s) = loaded s
   \<and> loaded (setResultHash h s) = loaded s"
  by (simp add: mutator_defs)

text \<open>
  C9. \<^verbatim>\<open>addIncludedFile(p)\<close> called twice leaves the state that one call leaves.
\<close>

theorem addIncludedFile_idempotent:
  "addIncludedFile p (addIncludedFile p s) = addIncludedFile p s"
  by (simp add: addIncludedFile_def)

text \<open>
  C10. After \<^verbatim>\<open>addDevDependency(name, v1)\<close> and then \<^verbatim>\<open>addDevDependency(name, v2)\<close>,
  \<^verbatim>\<open>devDeps\<close> maps \<open>name\<close> to \<open>v2\<close> and every other package name to what it was mapped
  to before; the state is the one that the second call alone leaves.
\<close>

theorem addDevDependency_last_write_wins:
  "devDeps (priv_config (addDevDependency name v2 (addDevDependency name v1 s)))
     = (devDeps (priv_config s))(name \<mapsto> v2)
   \<and> addDevDependency name v2 (addDevDependency name v1 s) = addDevDependency name v2 s"
  by (simp add: addDevDependency_def)

subsection \<open>Recording the file that was found\<close>

lemma getConfigFrom_reaches_load:
  assumes "(packageKey_of options = None \<and> s1 = s)
         \<or> (\<exists>k p. packageKey_of options = Some k \<and> completed (getPackage h s) = (Inr p, s1)
               \<and> \<not> (truthy p \<and> truthy (js_get h p k)))"
  shows "completed (getConfigFrom h s sp fps options)
           = completed (getConfigFrom_load h s1 sp fps options)"
  using assms by (auto simp: completed_getConfigFrom)

text \<open>
  A file that is not the first one resolved can still become \<^verbatim>\<open>resolvedPath\<close>. After
  \<^verbatim>\<open>getPackage()\<close> has resolved \<^verbatim>\<open>/app/package.json\<close>, \<^verbatim>\<open>getConfig([".babelrc"])\<close>
  finds \<^verbatim>\<open>/app/.babelrc\<close>: the path replaces \<^verbatim>\<open>resolvedPath\<close> and is not added to
  \<^verbatim>\<open>includedFiles\<close>. The same happens when the second file is itself a package
  descriptor, found from another search path: \<^verbatim>\<open>/lib/package.json\<close> replaces
  \<^verbatim>\<open>/app/package.json\<close> and \<^verbatim>\<open>includedFiles\<close> stays empty.
\<close>

theorem getConfig_replaces_package_json_counterexample:
  "resolvedPath (priv_config (snd (completed (getPackage (dir_host project_babelrc) state0))))
     = Some ''/app/package.json''
   \<and> fst (completed (getConfig (dir_host project_babelrc)
            (snd (completed (getPackage (dir_host project_babelrc) state0))) [''.babelrc''] None))
     = Inr (JObj [(''presets'', JArr [])])
   \<and> resolvedPath (priv_config (snd (completed (getConfig (dir_host project_babelrc)
            (snd (completed (getPackage (dir_host project_babelrc) state0))) [''.babelrc''] None))))
     = Some ''/app/.babelrc''
   \<and> ''/app/.babelrc'' \<notin> includedFiles (priv_config (snd (completed
          (getConfig (dir_host project_babelrc)
            (snd (completed (getPackage (dir_host project_babelrc) state0))) [''.babelrc''] None))))
   \<and> resolvedPath (priv_config (snd (completed (getPackage two_package_host state0))))
     = Some ''/app/package.json''
   \<and> fst (completed (getConfigFrom two_package_host
            (snd (completed (getPackage two_package_host state0)))
            ''/lib/index.js'' [''package.json''] None))
     = Inr (JObj [(''name'', JStr ''lib'')])
   \<and> resolvedPath (priv_config (snd (completed (getConfigFrom two_package_host
            (snd (completed (getPackage two_package_host state0)))
            ''/lib/index.js'' [''package.json''] None))))
     = Some ''/lib/package.json''
   \<and> includedFiles (priv_config (snd (completed (getConfigFrom two_package_host
            (snd (completed (getPackage two_package_host state0)))
            ''/lib/index.js'' [''package.json''] None))))
     = {}"
  by (simp add: evals project_babelrc_def two_package_host_def two_package_loader_def)

text \<open>
  C2, amended. Take a call of \<^verbatim>\<open>getConfigFrom\<close> that does not set \<^verbatim>\<open>exclude\<close>, runs to
  its end with no other call in between, and calls \<^verbatim>\<open>loadConfig\<close> in the state \<open>s1\<close>:
  the state of the call when no package key is given; the state \<^verbatim>\<open>getPackage()\<close> leaves
  when a key is given and the descriptor is falsy or reads falsy at the key. In the second
  case \<open>s1\<close> can differ from the state of the call: \<^verbatim>\<open>getPackage()\<close> may have recorded
  \<^verbatim>\<open>package.json\<close> by the same rule and stored the descriptor. If \<^verbatim>\<open>loadConfig\<close> finds
  a file, the call returns its content, and the path of the file becomes
  \<^verbatim>\<open>resolvedPath\<close> when the \<^verbatim>\<open>resolvedPath\<close> of \<open>s1\<close> is unset or ends with
  \<^verbatim>\<open>package.json\<close>; otherwise it is added to \<^verbatim>\<open>includedFiles\<close>. Nothing else of the
  Config differs from \<open>s1\<close>. \<^verbatim>\<open>getConfig\<close> is the same call with the wrapper's own
  search path.
\<close>

theorem getConfigFrom_records_found_file:
  assumes pre: "(packageKey_of options = None \<and> s1 = s)
         \<or> (\<exists>k p. packageKey_of options = Some k \<and> completed (getPackage h s) = (Inr p, s1)
               \<and> \<not> (truthy p \<and> truthy (js_get h p k)))"
    and found: "loadConfig h (loaded s1) (inputFS (priv_options s1)) sp fps (parse_of options)
                  = Inr (Some c)"
    and first: "files c = f # rest"
    and incl: "not_excluded options"
  shows "completed (getConfigFrom h s sp fps options) =
           (Inr (config c),
            s1\<lparr>loaded := loaded s1 @ [LoadCall sp fps (parse_of options)],
               priv_config :=
                 (if (case resolvedPath (priv_config s1) of
                        None \<Rightarrow> True
                      | Some rp \<Rightarrow> endsWith rp ''package.json'')
                  then (priv_config s1)\<lparr>resolvedPath := Some (filePath f)\<rparr>
                  else (priv_config s1)
                         \<lparr>includedFiles := insert (filePath f) (includedFiles (priv_config s1))\<rparr>)\<rparr>)"
proof -
  have "completed (getConfigFrom h s sp fps options)
          = completed (getConfigFrom_load h s1 sp fps options)"
    using pre by (rule getConfigFrom_reaches_load)
  then show ?thesis using found first incl
    by (simp add: completed_getConfigFrom_load Let_def files0_filePath_def setResolvedPath_def
        addIncludedFile_def split: option.splits)
qed

text \<open>
  The theorem on both branches. With the package key \<^verbatim>\<open>babel\<close>, from a Config whose
  \<^verbatim>\<open>resolvedPath\<close> is \<^verbatim>\<open>/x/custom.json\<close>: \<^verbatim>\<open>getPackage()\<close> adds
  \<^verbatim>\<open>/app/package.json\<close> to \<^verbatim>\<open>includedFiles\<close>, then the call adds \<^verbatim>\<open>/app/.babelrc\<close>.
  With no package key, from a fresh Config: \<^verbatim>\<open>/app/.babelrc\<close> becomes \<^verbatim>\<open>resolvedPath\<close>
  and nothing else changes.
\<close>

theorem getConfigFrom_records_found_file_witness:
  "packageKey_of (key_only ''babel'') = Some ''babel''
   \<and> fst (completed (getPackage (dir_host project_babelrc) state_custom))
       = Inr (JObj [(''name'', JStr ''app'')])
   \<and> \<not> truthy (js_get (dir_host project_babelrc) (JObj [(''name'', JStr ''app'')]) ''babel'')
   \<and> not_excluded (key_only ''babel'')
   \<and> includedFiles (priv_config (snd (completed (getPackage (dir_host project_babelrc)
                                                    state_custom))))
       = {''/app/package.json''}
   \<and> fst (completed (getConfigFrom (dir_host project_babelrc) state_custom ''/app/src/index.js''
             [''.babelrc''] (key_only ''babel''))) = Inr (JObj [(''presets'', JArr [])])
   \<and> resolvedPath (priv_config (snd (completed (getConfigFrom (dir_host project_babelrc)
             state_custom ''/app/src/index.js'' [''.babelrc''] (key_only ''babel'')))))
       = Some ''/x/custom.json''
   \<and> includedFiles (priv_config (snd (completed (getConfigFrom (dir_host project_babelrc)
             state_custom ''/app/src/index.js'' [''.babelrc''] (key_only ''babel'')))))
       = {''/app/package.json'', ''/app/.babelrc''}
   \<and> packageKey_of None = None
   \<and> completed (getConfigFrom (dir_host project_babelrc) state0 ''/app/src/index.js''
             [''.babelrc''] None)
       = (Inr (JObj [(''presets'', JArr [])]),
          state0\<lparr>loaded := [LoadCall ''/app/src/index.js'' [''.babelrc''] None],
                 priv_config := config0\<lparr>resolvedPath := Some ''/app/.babelrc''\<rparr>\<rparr>)"
proof -
  let ?h = "dir_host project_babelrc"
  let ?p = "JObj [(''name'', JStr ''app'')]"
  let ?s1 = "snd (completed (getPackage ?h state_custom))"
  let ?c = "\<lparr>config = JObj [(''presets'', JArr [])], files = [\<lparr>filePath = ''/app/.babelrc''\<rparr>]\<rparr>"
  have k: "packageKey_of (key_only ''babel'') = Some ''babel''"
    by (simp add: packageKey_of_def key_only_def)
  have g: "completed (getPackage ?h state_custom) = (Inr ?p, ?s1)"
    by (simp add: evals project_babelrc_def state_custom_def)
  have g1: "fst (completed (getPackage ?h state_custom)) = Inr ?p"
    by (simp add: evals project_babelrc_def state_custom_def)
  have n: "\<not> (truthy ?p \<and> truthy (js_get ?h ?p ''babel''))"
    by (simp add: js_get_def dir_host_def node_inherited_def object_prototype_def)
  have n1: "\<not> truthy (js_get ?h ?p ''babel'')"
    by (simp add: js_get_def dir_host_def node_inherited_def object_prototype_def)
  have h1: "(packageKey_of (key_only ''babel'') = None \<and> ?s1 = state_custom)
         \<or> (\<exists>k p. packageKey_of (key_only ''babel'') = Some k
               \<and> completed (getPackage ?h state_custom) = (Inr p, ?s1)
               \<and> \<not> (truthy p \<and> truthy (js_get ?h p k)))"
    using k g n by blast
  have h2: "loadConfig ?h (loaded ?s1) (inputFS (priv_options ?s1)) ''/app/src/index.js''
              [''.babelrc''] (parse_of (key_only ''babel'')) = Inr (Some ?c)"
    by (simp add: dir_host_def dir_loader_def project_babelrc_def)
  have h3: "files ?c = \<lparr>filePath = ''/app/.babelrc''\<rparr> # []" by simp
  have h4: "not_excluded (key_only ''babel'')" by (simp add: not_excluded_def key_only_def)
  have s1: "resolvedPath (priv_config ?s1) = Some ''/x/custom.json''"
    "includedFiles (priv_config ?s1) = {''/app/package.json''}"
    by (simp_all add: evals project_babelrc_def state_custom_def)
  have e: "\<not> endsWith ''/x/custom.json'' ''package.json''" by (simp add: endsWith_def)
  have j1: "(packageKey_of None = None \<and> state0 = state0)
         \<or> (\<exists>k p. packageKey_of None = Some k
               \<and> completed (getPackage ?h state0) = (Inr p, state0)
               \<and> \<not> (truthy p \<and> truthy (js_get ?h p k)))"
    by (simp add: packageKey_of_def)
  have j2: "loadConfig ?h (loaded state0) (inputFS (priv_options state0)) ''/app/src/index.js''
              [''.babelrc''] (parse_of None) = Inr (Some ?c)"
    by (simp add: dir_host_def dir_loader_def project_babelrc_def)
  have j4: "not_excluded None" by (simp add: not_excluded_def)
  have z: "resolvedPath (priv_config state0) = None" "priv_config state0 = config0"
    "loaded state0 = []" "parse_of None = None" "packageKey_of None = None"
    by (simp_all add: state0_def config0_def parse_of_def packageKey_of_def)
  from getConfigFrom_records_found_file [OF h1 h2 h3 h4]
       getConfigFrom_records_found_file [OF j1 j2 h3 j4]
       k g1 n1 h4 s1 e z
  show ?thesis by (simp add: insert_commute)
qed

subsection \<open>No file found\<close>

text \<open>
  A call that returns \<^verbatim>\<open>null\<close> can change the Config. With a package key that the
  descriptor does not have, \<^verbatim>\<open>getConfig([".babelrc"], {packageKey: "babel"})\<close> finds no
  \<^verbatim>\<open>.babelrc\<close> and returns \<^verbatim>\<open>null\<close>, but the lookup of the descriptor has set
  \<^verbatim>\<open>resolvedPath\<close> to \<^verbatim>\<open>/app/package.json\<close>.
\<close>

theorem getConfig_not_found_changes_counterexample:
  "js_get (dir_host project_bare) (JObj [(''name'', JStr ''app'')]) ''babel'' = JUndefined
   \<and> first_found project_bare [''.babelrc''] = None
   \<and> fst (completed (getConfig (dir_host project_bare) state0 [''.babelrc''] (key_only ''babel'')))
       = Inr JNull
   \<and> resolvedPath (priv_config state0) = None
   \<and> resolvedPath (priv_config (snd (completed (getConfig (dir_host project_bare) state0
                                        [''.babelrc''] (key_only ''babel'')))))
       = Some ''/app/package.json''"
  by (simp add: evals project_bare_def)

text \<open>
  C7, amended. Take a call of \<^verbatim>\<open>getConfigFrom\<close> that runs to its end with no other call
  in between and calls \<^verbatim>\<open>loadConfig\<close> in the state \<open>s1\<close>: the state of the call when
  no package key is given; the state \<^verbatim>\<open>getPackage()\<close> leaves when a key is given and the
  descriptor is falsy or reads falsy at the key. If \<^verbatim>\<open>loadConfig\<close> finds no file, the
  call returns \<^verbatim>\<open>null\<close> and the Config is the one of \<open>s1\<close>: unchanged when no package
  key is given, as \<^verbatim>\<open>getPackage()\<close> left it otherwise. Only the log of loads grows.
\<close>

theorem getConfigFrom_not_found:
  assumes pre: "(packageKey_of options = None \<and> s1 = s)
         \<or> (\<exists>k p. packageKey_of options = Some k \<and> completed (getPackage h s) = (Inr p, s1)
               \<and> \<not> (truthy p \<and> truthy (js_get h p k)))"
    and none: "loadConfig h (loaded s1) (inputFS (priv_options s1)) sp fps (parse_of options)
                 = Inr None"
  shows "completed (getConfigFrom h s sp fps options) =
           (Inr JNull, s1\<lparr>loaded := loaded s1 @ [LoadCall sp fps (parse_of options)]\<rparr>)"
proof -
  have "completed (getConfigFrom h s sp fps options)
          = completed (getConfigFrom_load h s1 sp fps options)"
    using pre by (rule getConfigFrom_reaches_load)
  then show ?thesis using none
    by (simp add: completed_getConfigFrom_load Let_def)
qed

text \<open>The theorem on both branches: with the package key \<^verbatim>\<open>babel\<close>, and with none.\<close>

theorem getConfigFrom_not_found_witness:
  "packageKey_of (key_only ''babel'') = Some ''babel''
   \<and> fst (completed (getPackage (dir_host project_bare) state0))
       = Inr (JObj [(''name'', JStr ''app'')])
   \<and> \<not> truthy (js_get (dir_host project_bare) (JObj [(''name'', JStr ''app'')]) ''babel'')
   \<and> loadConfig (dir_host project_bare)
        (loaded (snd (completed (getPackage (dir_host project_bare) state0))))
        (inputFS (priv_options (snd (completed (getPackage (dir_host project_bare) state0)))))
        ''/app/src/index.js'' [''.babelrc''] (parse_of (key_only ''babel'')) = Inr None
   \<and> fst (completed (getConfigFrom (dir_host project_bare) state0 ''/app/src/index.js''
            [''.babelrc''] (key_only ''babel''))) = Inr JNull
   \<and> priv_config (snd (completed (getConfigFrom (dir_host project_bare) state0
            ''/app/src/index.js'' [''.babelrc''] (key_only ''babel''))))
       = priv_config (snd (completed (getPackage (dir_host project_bare) state0)))
   \<and> packageKey_of None = None
   \<and> completed (getConfigFrom (dir_host project_bare) state0 ''/app/src/index.js''
            [''.babelrc''] None)
       = (Inr JNull, state0\<lparr>loaded := [LoadCall ''/app/src/index.js'' [''.babelrc''] None]\<rparr>)"
proof -
  let ?h = "dir_host project_bare"
  let ?p = "JObj [(''name'', JStr ''app'')]"
  let ?s1 = "snd (completed (getPackage ?h state0))"
  have k: "packageKey_of (key_only ''babel'') = Some ''babel''"
    by (simp add: packageKey_of_def key_only_def)
  have g: "completed (getPackage ?h state0) = (Inr ?p, ?s1)"
    by (simp add: evals project_bare_def)
  have n: "\<not> (truthy ?p \<and> truthy (js_get ?h ?p ''babel''))"
    by (simp add: js_get_def dir_host_def node_inherited_def object_prototype_def)
  have n1: "\<not> truthy (js_get ?h ?p ''babel'')"
    by (simp add: js_get_def dir_host_def node_inherited_def object_prototype_def)
  have h1: "(packageKey_of (key_only ''babel'') = None \<and> ?s1 = state0)
         \<or> (\<exists>k p. packageKey_of (key_only ''babel'') = Some k
               \<and> completed (getPackage ?h state0) = (Inr p, ?s1)
               \<and> \<not> (truthy p \<and> truthy (js_get ?h p k)))"
    using k g n by blast
  have h2: "loadConfig ?h (loaded ?s1) (inputFS (priv_options ?s1))
        ''/app/src/index.js'' [''.babelrc''] (parse_of (key_only ''babel'')) = Inr None"
    by (simp add: dir_host_def dir_loader_def project_bare_def)
  have g1: "fst (completed (getPackage ?h state0)) = Inr ?p"
    by (simp add: evals project_bare_def)
  have j1: "(packageKey_of None = None \<and> state0 = state0)
         \<or> (\<exists>k p. packageKey_of None = Some k
               \<and> completed (getPackage ?h state0) = (Inr p, state0)
               \<and> \<not> (truthy p \<and> truthy (js_get ?h p k)))"
    by (simp add: packageKey_of_def)
  have j2: "loadConfig ?h (loaded state0) (inputFS (priv_options state0))
        ''/app/src/index.js'' [''.babelrc''] (parse_of None) = Inr None"
    by (simp add: dir_host_def dir_loader_def project_bare_def)
  have z: "loaded state0 = []" "parse_of None = None" "packageKey_of None = None"
    by (simp_all add: state0_def parse_of_def packageKey_of_def)
  from getConfigFrom_not_found [OF h1 h2] getConfigFrom_not_found [OF j1 j2] k g1 n1 h2 z
  show ?thesis by simp
qed

subsection \<open>The flags\<close>

lemma load_keeps:
  "shouldRehydrate (priv_config (snd (completed (getConfigFrom_load h s sp fps options))))
     = shouldRehydrate (priv_config s)"
  "shouldReload (priv_config (snd (completed (getConfigFrom_load h s sp fps options))))
     = shouldReload (priv_config s)"
  "shouldInvalidateOnStartup (priv_config (snd (completed (getConfigFrom_load h s sp fps options))))
     = shouldInvalidateOnStartup (priv_config s)"
  "pkg (priv_config (snd (completed (getConfigFrom_load h s sp fps options))))
     = pkg (priv_config s)"
  by (simp_all add: completed_getConfigFrom_load Let_def setResolvedPath_def addIncludedFile_def
      split: sum.splits option.splits)






subsection \<open>The cached package descriptor\<close>

lemma getPackage_cached:
  "truthy (pkg (priv_config s)) \<Longrightarrow> completed (getPackage h s) = (Inr (pkg (priv_config s)), s)"
  by (simp add: completed_getPackage)

lemma lookups_keep_pkg:
  assumes "truthy (pkg (priv_config s))"
  shows "pkg (priv_config (snd (completed (getConfigFrom h s sp fps options))))
           = pkg (priv_config s)"
    and "pkg (priv_config (snd (completed (getConfig h s fps options)))) = pkg (priv_config s)"
proof -
  show "pkg (priv_config (snd (completed (getConfigFrom h s sp fps options))))
          = pkg (priv_config s)" for sp
    using getPackage_cached [OF assms, of h]
    by (simp add: completed_getConfigFrom load_keeps split: option.splits)
  then show "pkg (priv_config (snd (completed (getConfig h s fps options))))
          = pkg (priv_config s)"
    by (simp add: completed_getConfig)
qed

lemma exec_keeps_pkg:
  "truthy (pkg (priv_config s)) \<Longrightarrow> pkg (priv_config (exec h x s)) = pkg (priv_config s)"
  by (cases x) (simp_all add: mutator_defs lookups_keep_pkg getPackage_cached)

lemma run_keeps_pkg:
  "truthy (pkg (priv_config s)) \<Longrightarrow> pkg (priv_config (run h xs s)) = pkg (priv_config s)"
  by (induction xs arbitrary: s) (simp_all add: exec_keeps_pkg)

lemma getPackage_stores_result:
  assumes "completed (getPackage h s) = (Inr p, s1)"
  shows "pkg (priv_config s1) = p"
proof (cases "truthy (pkg (priv_config s))")
  case True
  with assms show ?thesis by (auto simp: completed_getPackage)
next
  case False
  with assms show ?thesis
    by (auto simp: completed_getPackage split: prod.splits sum.splits)
qed

lemma getPackage_searches:
  assumes "\<not> truthy (pkg (priv_config s))"
  shows "loaded (snd (completed (getPackage h s)))
           = loaded s @ [LoadCall (searchPath (priv_config s)) [''package.json''] None]"
  using assms
  by (simp add: completed_getPackage completed_getConfig completed_getConfigFrom
      completed_getConfigFrom_load packageKey_of_def parse_of_def searchPath'_def Let_def
      setResolvedPath_def addIncludedFile_def
      split: sum.splits option.splits prod.splits)

text \<open>
  A lookup that found no package descriptor is not remembered. In a project without a
  \<^verbatim>\<open>package.json\<close> the first \<^verbatim>\<open>getPackage()\<close> resolves to \<^verbatim>\<open>null\<close>, and the second
  one, made after the first is settled, searches again: the log holds two loads.
\<close>

theorem getPackage_not_memoized_counterexample:
  "fst (completed (getPackage (dir_host []) state0)) = Inr JNull
   \<and> loaded (snd (completed (getPackage (dir_host []) state0)))
       = [LoadCall ''/app/src/index.js'' [''package.json''] None]
   \<and> fst (completed (getPackage (dir_host []) (snd (completed (getPackage (dir_host []) state0)))))
       = Inr JNull
   \<and> loaded (snd (completed (getPackage (dir_host [])
                                (snd (completed (getPackage (dir_host []) state0))))))
       = [LoadCall ''/app/src/index.js'' [''package.json''] None,
          LoadCall ''/app/src/index.js'' [''package.json''] None]"
  by (simp add: evals)

text \<open>
  C3, amended. Take calls on the wrapper that do not overlap: each one is made after the
  one before is settled. Once \<^verbatim>\<open>getPackage()\<close> has resolved to a truthy package
  descriptor, every later \<^verbatim>\<open>getPackage()\<close>, after any sequence of operations of the
  wrapper, returns that descriptor and leaves the state as it is: no search is made. Once
  it has resolved to a falsy value, \<^verbatim>\<open>null\<close> when no descriptor is found, the next
  \<^verbatim>\<open>getPackage()\<close> searches for \<^verbatim>\<open>package.json\<close> again.
\<close>

theorem getPackage_memoized:
  assumes "completed (getPackage h s) = (Inr p, s1)"
  shows "(truthy p \<longrightarrow> completed (getPackage h (run h ops s1)) = (Inr p, run h ops s1))
       \<and> (\<not> truthy p \<longrightarrow>
            loaded (snd (completed (getPackage h s1)))
              = loaded s1 @ [LoadCall (searchPath (priv_config s1)) [''package.json''] None])"
proof -
  have p: "pkg (priv_config s1) = p" using assms by (rule getPackage_stores_result)
  have "completed (getPackage h (run h ops s1)) = (Inr p, run h ops s1)" if "truthy p"
  proof -
    from that p have "truthy (pkg (priv_config (run h ops s1)))"
      and "pkg (priv_config (run h ops s1)) = p"
      by (simp_all add: run_keeps_pkg)
    then show ?thesis using getPackage_cached [of "run h ops s1" h] by simp
  qed
  moreover have "loaded (snd (completed (getPackage h s1)))
      = loaded s1 @ [LoadCall (searchPath (priv_config s1)) [''package.json''] None]"
    if "\<not> truthy p"
    using that p getPackage_searches [of s1 h] by simp
  ultimately show ?thesis by blast
qed

text \<open>
  The theorem on both branches: a project with a \<^verbatim>\<open>package.json\<close>, and one without.
\<close>

theorem getPackage_memoized_witness:
  "completed (getPackage (dir_host project_babelrc) state0)
     = (Inr (JObj [(''name'', JStr ''app'')]),
        snd (completed (getPackage (dir_host project_babelrc) state0)))
   \<and> truthy (JObj [(''name'', JStr ''app'')])
   \<and> completed (getPackage (dir_host project_babelrc)
       (run (dir_host project_babelrc) some_ops
          (snd (completed (getPackage (dir_host project_babelrc) state0)))))
     = (Inr (JObj [(''name'', JStr ''app'')]),
        run (dir_host project_babelrc) some_ops
          (snd (completed (getPackage (dir_host project_babelrc) state0))))
   \<and> completed (getPackage (dir_host []) state0)
     = (Inr JNull, snd (completed (getPackage (dir_host []) state0)))
   \<and> \<not> truthy JNull
   \<and> loaded (snd (completed (getPackage (dir_host [])
                                (snd (completed (getPackage (dir_host []) state0))))))
     = loaded (snd (completed (getPackage (dir_host []) state0)))
         @ [LoadCall ''/app/src/index.js'' [''package.json''] None]"
proof -
  have h1: "completed (getPackage (dir_host project_babelrc) state0)
     = (Inr (JObj [(''name'', JStr ''app'')]),
        snd (completed (getPackage (dir_host project_babelrc) state0)))"
    by (simp add: evals project_babelrc_def)
  have h2: "truthy (JObj [(''name'', JStr ''app'')])" by simp
  have g1: "completed (getPackage (dir_host []) state0)
     = (Inr JNull, snd (completed (getPackage (dir_host []) state0)))"
    by (simp add: evals)
  have g2: "\<not> truthy JNull" by simp
  have sp: "searchPath (priv_config (snd (completed (getPackage (dir_host []) state0))))
              = ''/app/src/index.js''"
    by (simp add: evals)
  from getPackage_memoized [OF h1, of some_ops] getPackage_memoized [OF g1, of "[]"] h1 h2 g1 g2 sp
  show ?thesis by simp
qed

text \<open>
  Calls that overlap are not covered: \<^verbatim>\<open>getPackage\<close> tests \<^verbatim>\<open>this.#config.pkg\<close>
  before its \<^verbatim>\<open>await\<close> and assigns it after. Below, a second \<^verbatim>\<open>getPackage()\<close> is made
  while the first is suspended, and \<^verbatim>\<open>package.json\<close> is edited between the two loads.
  Both calls search. The first resolves to version 1, and a call made then returns
  version 1 from the cache; when the second call is resumed it overwrites the cache, and a
  call made after that returns version 2.
\<close>

theorem getPackage_overlapping_calls:
  "(let (pA, sA) = getPackage edited_host state0;
        (pB, sB) = getPackage edited_host sA;
        (rA, s3) = settle pA sB;
        (rC, s4) = completed (getPackage edited_host s3);
        (rB, s5) = settle pB s4;
        (rD, s6) = completed (getPackage edited_host s5)
    in rA = Inr (JObj [(''version'', JNum 1)])
       \<and> rC = Inr (JObj [(''version'', JNum 1)])
       \<and> rB = Inr (JObj [(''version'', JNum 2)])
       \<and> rD = Inr (JObj [(''version'', JNum 2)])
       \<and> loaded s6 = [LoadCall ''/app/src/index.js'' [''package.json''] None,
                       LoadCall ''/app/src/index.js'' [''package.json''] None])"
  by (simp add: getPackage.simps getConfig.simps getConfigFrom.simps getConfigFrom_load_def
      loadConfig_call_def await_call_def completed_def packageKey_of_def parse_of_def
      not_excluded_def files0_filePath_def endsWith_def setResolvedPath_def addIncludedFile_def
      searchPath'_def Let_def state0_def config0_def edited_host_def edited_loader_def)

end
